theory Spec2Isabelle
  imports Complex_Main "HOL-Library.Sublist"
begin

section \<open>The vector engine of vector\_engine.py\<close>

text \<open>
  \<open>VectorEngine\<close> keeps an id-tagged flat L2 index (\<open>self.id_map\<close>), a dictionary
  from ids to metadata documents (\<open>self.metadata\<close>), the counter \<open>self.next_id\<close>, and two
  files in its cache directory. Its methods mutate the object, write the files and the
  log, and catch every exception at their own boundary. The model passes the object
  explicitly: a method takes the engine and returns its result with the engine after the
  call. Exceptions are values \<open>Inl msg\<close> of a sum type, \<open>msg\<close> being \<open>str(e)\<close>.
\<close>

subsection \<open>Data\<close>

text \<open>
  A float32 vector is a list of reals: rounding is not modelled, the overflow of a
  distance is (see \<open>faiss_search_row\<close>). The index is the list of its (id, vector)
  entries in storage order, \<open>ntotal\<close> being its length, together with its dimension
  \<open>d\<close>. A Python dictionary is the list of its (key, value) items in insertion order.
\<close>

type_synonym vec = "real list"
type_synonym faiss_index = "(int \<times> vec) list"
type_synonym 'm pydict = "(int \<times> 'm) list"

text \<open>
  A file of the cache directory is missing, holds bytes that its reader rejects, or holds
  a value its reader returns. The index file holds the dimension and the entries of an
  index. The metadata file holds a pickled dictionary, whose keys \<open>'metadata'\<close> and
  \<open>'next_id'\<close> may each be present or not.
\<close>

datatype 'a artifact = Missing | Corrupt | Stored 'a

datatype 'm pickled = Pickled "'m pydict option" "int option"

text \<open>The lines the methods write to the logger.\<close>

datatype log_entry =
    LoadedIndex nat
  | FailedToLoad
  | SavedIndex nat
  | FailedToSave
  | ErrorAdding string
  | ErrorSearching string
  | ErrorRemoving string
  | ErrorProcessing string

text \<open>
  The object: \<open>dimension\<close> is \<open>self.dimension\<close>, the dimension of the encoder;
  \<open>id_map\<close> and \<open>id_map_d\<close> are the entries and the dimension of the index in
  \<open>self.id_map\<close>, which after a load are those of the index file.
\<close>

record 'm VectorEngine =
  dimension :: nat
  id_map :: faiss_index
  id_map_d :: nat
  metadata :: "'m pydict"
  next_id :: int
  index_file :: "(nat \<times> faiss_index) artifact"
  metadata_file :: "'m pickled artifact"
  logger :: "log_entry list"

text \<open>
  What a call finds outside the engine. \<open>embed\<close> is the sentence embedding of one text
  and \<open>encode_raises\<close> says for which batches \<open>model.encode\<close> raises, and with which
  message. \<open>disk_write\<close> is the fate of a save attempted during the call: both files
  written, or \<open>faiss.write_index\<close> raising (leaving the index file as given), or the
  index file written and the pickle dump raising (leaving the metadata file as given).
\<close>

datatype 'm disk_write =
    WriteOk
  | IndexWriteFails "(nat \<times> faiss_index) artifact"
  | MetadataWriteFails "'m pickled artifact"

record 'm env =
  embed :: "string \<Rightarrow> vec"
  encode_raises :: "string list \<Rightarrow> string option"
  disk_write :: "'m disk_write"

text \<open>The values the methods return.\<close>

record 'm hit =
  hit_metadata :: 'm
  distance :: real
  relevance :: real

datatype 'm result =
    VectorIds "int list"
  | ErrorResult string
  | Hits "'m hit list"
  | Success
  | Stats nat nat nat

subsection \<open>Dictionaries\<close>

definition dict_mem :: "'m pydict \<Rightarrow> int \<Rightarrow> bool" where
  "dict_mem d key = (map_of d key \<noteq> None)"

fun dict_set :: "'m pydict \<Rightarrow> int \<Rightarrow> 'm \<Rightarrow> 'm pydict" where
  "dict_set [] key v = [(key, v)]"
| "dict_set ((k', v') # d) key v =
     (if k' = key then (key, v) # d else (k', v') # dict_set d key v)"

definition dict_del :: "'m pydict \<Rightarrow> int \<Rightarrow> 'm pydict" where
  "dict_del d key = filter (\<lambda>item. fst item \<noteq> key) d"

definition dict_keys :: "'m pydict \<Rightarrow> int list" where
  "dict_keys d = map fst d"

subsection \<open>The collaborators: sentence encoder and faiss index\<close>

text \<open>
  \<open>model.encode(texts)\<close> returns one vector for each text, or raises. For no text the
  array it returns has the shape \<open>(0,)\<close>, without a second axis.
\<close>

definition encode :: "'m env \<Rightarrow> string list \<Rightarrow> string + vec list" where
  "encode e txts =
     (case encode_raises e txts of
        Some msg \<Rightarrow> Inl msg
      | None \<Rightarrow> Inr (map (embed e) txts))"

text \<open>
  \<open>np.array(ids, dtype=np.int64)\<close> raises for an id outside the 64-bit range.
\<close>

definition int64_range :: "int \<Rightarrow> bool" where
  "int64_range i = (- (2 ^ 63) \<le> i \<and> i < 2 ^ 63)"

definition np_int64_array :: "int list \<Rightarrow> string + int list" where
  "np_int64_array ids =
     (if list_all int64_range ids then Inr ids
      else Inl ''Python int too large to convert to C long'')"

text \<open>
  The faiss calls of the engine, as the Python wrapper of the library and
  \<open>IndexIDMap\<close> over \<open>IndexFlatL2\<close> behave. \<open>add_with_ids\<close> on an index of dimension
  \<open>d\<close> unpacks \<open>n, d = x.shape\<close>, which fails for the array of no vector; asserts that
  the vectors have dimension \<open>d\<close>; asserts that there are as many ids as vectors; and
  appends the vectors under the ids.
\<close>

definition faiss_add_with_ids ::
    "nat \<Rightarrow> faiss_index \<Rightarrow> vec list \<Rightarrow> int list \<Rightarrow> string + faiss_index" where
  "faiss_add_with_ids d idx vectors ids =
     (if vectors = [] then Inl ''not enough values to unpack (expected 2, got 1)''
      else if \<not> list_all (\<lambda>v. length v = d) vectors then Inl []
      else if length ids \<noteq> length vectors then Inl ''not same nb of vectors as ids''
      else Inr (idx @ zip ids vectors))"

text \<open>
  \<open>search\<close> asserts that the queries have dimension \<open>d\<close> and that \<open>k > 0\<close>. For each
  query it scans every entry and returns \<open>k\<close> candidates: the entries of smallest
  squared Euclidean distance in non-decreasing order of distance, entries of equal
  distance in storage order. An entry is a candidate only if its distance is below the
  largest float32 (a distance that overflows never is); where fewer than \<open>k\<close> entries
  are, the row is filled up with the id \<open>-1\<close> at that largest distance.
\<close>

text \<open>
  The entries of an index all have its dimension (\<open>add_with_ids\<close> asserts it, and an
  index file holds them so), and so has a query that passes the assertion of \<open>search\<close>;
  on such vectors \<open>l2_distance\<close> is the squared Euclidean distance. \<open>scored\<close>: the
  entries of the index with their distances to a query, in storage order; \<open>admitted\<close>:
  those whose distance float32 can hold.
\<close>

definition l2_distance :: "vec \<Rightarrow> vec \<Rightarrow> real" where
  "l2_distance x y = (\<Sum>(a, b) \<leftarrow> zip x y. (a - b) * (a - b))"

definition float32_max :: real where
  "float32_max = 340282346638528859811704183484516925440"

definition scored :: "faiss_index \<Rightarrow> vec \<Rightarrow> (int \<times> real) list" where
  "scored idx q = map (\<lambda>(i, v). (i, l2_distance q v)) idx"

definition admitted :: "faiss_index \<Rightarrow> vec \<Rightarrow> (int \<times> real) list" where
  "admitted idx q = filter (\<lambda>c. snd c < float32_max) (scored idx q)"

definition faiss_search_row :: "faiss_index \<Rightarrow> vec \<Rightarrow> nat \<Rightarrow> (int \<times> real) list" where
  "faiss_search_row idx q n =
     (let found = take n (sort_key snd (admitted idx q))
      in found @ replicate (n - length found) (- 1, float32_max))"

definition faiss_search ::
    "nat \<Rightarrow> faiss_index \<Rightarrow> vec list \<Rightarrow> int \<Rightarrow> string + (int \<times> real) list list" where
  "faiss_search d idx queries k =
     (if \<not> list_all (\<lambda>q. length q = d) queries then Inl []
      else if k \<le> 0 then Inl []
      else Inr (map (\<lambda>q. faiss_search_row idx q (nat k)) queries))"

text \<open>
  \<open>reconstruct\<close> is not implemented by \<open>IndexIDMap\<close>: the call raises for every id.
  The message is the library's, without the source location that precedes it.
\<close>

definition faiss_reconstruct :: "faiss_index \<Rightarrow> int \<Rightarrow> string + vec" where
  "faiss_reconstruct idx key = Inl ''reconstruct not implemented for this type of index''"

subsection \<open>Persistence: save\_index, load\_index and the constructor\<close>

definition save_index :: "'m disk_write \<Rightarrow> 'm VectorEngine \<Rightarrow> 'm VectorEngine" where
  "save_index w s =
     (case w of
        WriteOk \<Rightarrow>
          s\<lparr>index_file := Stored (id_map_d s, id_map s),
            metadata_file := Stored (Pickled (Some (metadata s)) (Some (next_id s))),
            logger := logger s @ [SavedIndex (length (id_map s))]\<rparr>
      | IndexWriteFails left \<Rightarrow>
          s\<lparr>index_file := left, logger := logger s @ [FailedToSave]\<rparr>
      | MetadataWriteFails left \<Rightarrow>
          s\<lparr>index_file := Stored (id_map_d s, id_map s), metadata_file := left,
            logger := logger s @ [FailedToSave]\<rparr>)"

text \<open>
  \<open>load_index\<close> assigns \<open>self.id_map\<close>, then \<open>self.metadata\<close>, then \<open>self.next_id\<close>,
  all inside one \<open>try\<close>: an exception on the way keeps the assignments already made.
\<close>

definition load_index :: "'m VectorEngine \<Rightarrow> 'm VectorEngine" where
  "load_index s =
     (if index_file s \<noteq> Missing \<and> metadata_file s \<noteq> Missing then
        (case index_file s of
           Stored (d, idx) \<Rightarrow>
             (let s1 = s\<lparr>id_map := idx, id_map_d := d\<rparr> in
              case metadata_file s of
                Stored (Pickled (Some md) nid) \<Rightarrow>
                  (let s2 = s1\<lparr>metadata := md\<rparr> in
                   case nid of
                     Some n \<Rightarrow> s2\<lparr>next_id := n, logger := logger s2 @ [LoadedIndex (length idx)]\<rparr>
                   | None \<Rightarrow> s2\<lparr>logger := logger s2 @ [FailedToLoad]\<rparr>)
              | _ \<Rightarrow> s1\<lparr>logger := logger s1 @ [FailedToLoad]\<rparr>)
         | _ \<Rightarrow> s\<lparr>logger := logger s @ [FailedToLoad]\<rparr>)
      else s)"

text \<open>
  The constructor, for an encoder of dimension \<open>d\<close> and a cache directory holding the
  two given files: an empty index of dimension \<open>d\<close>, an empty dictionary, counter 0,
  then \<open>load_index\<close>.
\<close>

definition VectorEngine_init ::
    "nat \<Rightarrow> (nat \<times> faiss_index) artifact \<Rightarrow> 'm pickled artifact \<Rightarrow> 'm VectorEngine" where
  "VectorEngine_init d ifile mfile =
     load_index \<lparr>dimension = d, id_map = [], id_map_d = d, metadata = [], next_id = 0,
                 index_file = ifile, metadata_file = mfile, logger = []\<rparr>"

subsection \<open>add\_embeddings\<close>

text \<open>The \<open>for\<close> loop over the metadata list: one fresh id for each document.\<close>

fun add_loop :: "'m list \<Rightarrow> int list \<Rightarrow> 'm VectorEngine \<Rightarrow> int list \<times> 'm VectorEngine" where
  "add_loop [] ids s = (ids, s)"
| "add_loop (meta # rest) ids s =
     add_loop rest (ids @ [next_id s])
       (s\<lparr>next_id := next_id s + 1,
          metadata := dict_set (metadata s) (next_id s) meta\<rparr>)"

definition add_embeddings ::
    "'m env \<Rightarrow> string list \<Rightarrow> 'm list \<Rightarrow> 'm VectorEngine \<Rightarrow> 'm result \<times> 'm VectorEngine" where
  "add_embeddings e txts metas s =
     (case encode e txts of
        Inl err \<Rightarrow> (ErrorResult err, s\<lparr>logger := logger s @ [ErrorAdding err]\<rparr>)
      | Inr embeddings \<Rightarrow>
          (let (ids, s1) = add_loop metas [] s in
           case np_int64_array ids of
             Inl err \<Rightarrow> (ErrorResult err, s1\<lparr>logger := logger s1 @ [ErrorAdding err]\<rparr>)
           | Inr ids_array \<Rightarrow>
               (case faiss_add_with_ids (id_map_d s1) (id_map s1) embeddings ids_array of
                  Inl err \<Rightarrow> (ErrorResult err, s1\<lparr>logger := logger s1 @ [ErrorAdding err]\<rparr>)
                | Inr idx \<Rightarrow>
                    (let s2 = s1\<lparr>id_map := idx\<rparr>;
                         s3 = (if length (metadata s2) mod 100 = 0
                               then save_index (disk_write e) s2 else s2)
                     in (VectorIds ids, s3)))))"

subsection \<open>search\<close>

text \<open>
  The loop over the candidates of the first row. A candidate is kept when its id is not
  \<open>-1\<close> and is a key of the metadata dictionary; \<open>1 / (1 + dst)\<close> raises for
  \<open>dst = -1\<close>.
\<close>

definition keeps :: "'m pydict \<Rightarrow> int \<times> real \<Rightarrow> bool" where
  "keeps md c = (fst c \<noteq> - 1 \<and> dict_mem md (fst c))"

fun collect :: "'m pydict \<Rightarrow> (int \<times> real) list \<Rightarrow> 'm hit list \<Rightarrow> string + 'm hit list" where
  "collect md [] results = Inr results"
| "collect md ((idx, dst) # rest) results =
     (if keeps md (idx, dst) then
        (case map_of md idx of
           None \<Rightarrow> Inl ''KeyError''
         | Some m \<Rightarrow>
             if 1 + dst = 0 then Inl ''float division by zero''
             else collect md rest
                    (results @ [\<lparr>hit_metadata = m, distance = dst, relevance = 1 / (1 + dst)\<rparr>]))
      else collect md rest results)"

text \<open>The first row of the library's answer, as \<open>indices[0]\<close> and \<open>distances[0]\<close> read it.\<close>

definition first_row :: "(int \<times> real) list list \<Rightarrow> string + (int \<times> real) list" where
  "first_row rows = (case rows of [] \<Rightarrow> Inl ''index out of range'' | r # _ \<Rightarrow> Inr r)"

definition search ::
    "'m env \<Rightarrow> string \<Rightarrow> int \<Rightarrow> 'm VectorEngine \<Rightarrow> 'm hit list \<times> 'm VectorEngine" where
  "search e query k s =
     (if length (id_map s) = 0 then ([], s)
      else
        (case encode e [query] of
           Inl err \<Rightarrow> ([], s\<lparr>logger := logger s @ [ErrorSearching err]\<rparr>)
         | Inr query_vector \<Rightarrow>
             (case faiss_search (id_map_d s) (id_map s) query_vector
                     (min k (int (length (id_map s)))) of
                Inl err \<Rightarrow> ([], s\<lparr>logger := logger s @ [ErrorSearching err]\<rparr>)
              | Inr rows \<Rightarrow>
                  (case first_row rows of
                     Inl err \<Rightarrow> ([], s\<lparr>logger := logger s @ [ErrorSearching err]\<rparr>)
                   | Inr cands \<Rightarrow>
                       (case collect (metadata s) cands [] of
                          Inl err \<Rightarrow> ([], s\<lparr>logger := logger s @ [ErrorSearching err]\<rparr>)
                        | Inr results \<Rightarrow> (results, s))))))"

text \<open>
  The results carry no id. \<open>search_ids\<close> runs the same call and returns, for each result
  in order, the (id, distance) candidate it was built from.
\<close>

definition search_ids :: "'m env \<Rightarrow> string \<Rightarrow> int \<Rightarrow> 'm VectorEngine \<Rightarrow> (int \<times> real) list" where
  "search_ids e query k s =
     (if length (id_map s) = 0 \<or> encode_raises e [query] \<noteq> None
         \<or> length (embed e query) \<noteq> id_map_d s
         \<or> min k (int (length (id_map s))) \<le> 0 then []
      else filter (keeps (metadata s))
             (faiss_search_row (id_map s) (embed e query)
                (nat (min k (int (length (id_map s)))))))"

subsection \<open>remove\_embeddings and get\_stats\<close>

text \<open>
  The deletions from the dictionary come first. With ids remaining, every one is
  reconstructed before a fresh index of the encoder's dimension replaces the old one and
  receives the vectors; with none remaining, a fresh index replaces the old one.
\<close>

fun remove_loop :: "int list \<Rightarrow> 'm pydict \<Rightarrow> 'm pydict" where
  "remove_loop [] md = md"
| "remove_loop (vid # rest) md =
     remove_loop rest (if dict_mem md vid then dict_del md vid else md)"

fun reconstruct_loop :: "faiss_index \<Rightarrow> int list \<Rightarrow> vec list \<Rightarrow> string + vec list" where
  "reconstruct_loop idx [] vectors = Inr vectors"
| "reconstruct_loop idx (vid # rest) vectors =
     (case faiss_reconstruct idx vid of
        Inl err \<Rightarrow> Inl err
      | Inr v \<Rightarrow> reconstruct_loop idx rest (vectors @ [v]))"

definition remove_embeddings ::
    "'m env \<Rightarrow> int list \<Rightarrow> 'm VectorEngine \<Rightarrow> 'm result \<times> 'm VectorEngine" where
  "remove_embeddings e vector_ids s =
     (let s1 = s\<lparr>metadata := remove_loop vector_ids (metadata s)\<rparr>;
          remaining_ids = dict_keys (metadata s1)
      in if remaining_ids \<noteq> [] then
           (case reconstruct_loop (id_map s1) remaining_ids [] of
              Inl err \<Rightarrow> (ErrorResult err, s1\<lparr>logger := logger s1 @ [ErrorRemoving err]\<rparr>)
            | Inr vectors \<Rightarrow>
                (case np_int64_array remaining_ids of
                   Inl err \<Rightarrow> (ErrorResult err, s1\<lparr>logger := logger s1 @ [ErrorRemoving err]\<rparr>)
                 | Inr ids \<Rightarrow>
                     (let s2 = s1\<lparr>id_map := [], id_map_d := dimension s1\<rparr> in
                      case faiss_add_with_ids (id_map_d s2) (id_map s2) vectors ids of
                        Inl err \<Rightarrow>
                          (ErrorResult err, s2\<lparr>logger := logger s2 @ [ErrorRemoving err]\<rparr>)
                      | Inr idx \<Rightarrow> (Success, save_index (disk_write e) (s2\<lparr>id_map := idx\<rparr>)))))
         else (Success,
               save_index (disk_write e) (s1\<lparr>id_map := [], id_map_d := dimension s1\<rparr>)))"

text \<open>\<open>Stats total_vectors dimension metadata_count\<close>.\<close>

definition get_stats :: "'m VectorEngine \<Rightarrow> 'm result" where
  "get_stats s = Stats (length (id_map s)) (dimension s) (length (metadata s))"

definition total_vectors :: "'m VectorEngine \<Rightarrow> nat" where
  "total_vectors s = (case get_stats s of Stats t _ _ \<Rightarrow> t | _ \<Rightarrow> 0)"

definition metadata_count :: "'m VectorEngine \<Rightarrow> nat" where
  "metadata_count s = (case get_stats s of Stats _ _ c \<Rightarrow> c | _ \<Rightarrow> 0)"

subsection \<open>process\_request\<close>

text \<open>
  A request is a JSON object; a field (\<open>r_\<close> and its key) is absent (\<open>None\<close>) or
  present. The response has
  the request id and either a \<open>result\<close> or a top-level \<open>error\<close>.
\<close>

record 'm request =
  r_requestId :: "string option"
  r_action :: "string option"
  r_texts :: "string list option"
  r_metadata :: "'m list option"
  r_query :: "string option"
  r_k :: "int option"
  r_vectorIds :: "int list option"

record 'm response =
  response_requestId :: "string option"
  response_result :: "'m result option"
  response_error :: "string option"

text \<open>
  The four methods \<open>process_request\<close> calls on \<open>self\<close>. A method bound there may raise
  (the tests patch \<open>add_embeddings\<close> to do so): it returns \<open>Inl msg\<close> for an exception
  that leaves it, \<open>Inr r\<close> for a returned value.
\<close>

record 'm handlers =
  on_add :: "string list \<Rightarrow> 'm list \<Rightarrow> 'm VectorEngine \<Rightarrow> (string + 'm result) \<times> 'm VectorEngine"
  on_search :: "string \<Rightarrow> int \<Rightarrow> 'm VectorEngine \<Rightarrow> (string + 'm result) \<times> 'm VectorEngine"
  on_remove :: "int list \<Rightarrow> 'm VectorEngine \<Rightarrow> (string + 'm result) \<times> 'm VectorEngine"
  on_stats :: "'m VectorEngine \<Rightarrow> (string + 'm result) \<times> 'm VectorEngine"

definition get_or :: "'a option \<Rightarrow> 'a \<Rightarrow> 'a" where
  "get_or field dflt = (case field of None \<Rightarrow> dflt | Some v \<Rightarrow> v)"

text \<open>\<open>f"{action}"\<close> for a string or \<open>None\<close>.\<close>

definition format_action :: "string option \<Rightarrow> string" where
  "format_action a = (case a of None \<Rightarrow> ''None'' | Some name \<Rightarrow> name)"

definition dispatch ::
    "'m handlers \<Rightarrow> 'm request \<Rightarrow> 'm VectorEngine \<Rightarrow> (string + 'm result) \<times> 'm VectorEngine" where
  "dispatch h request s =
     (if r_action request = Some ''add'' then
        on_add h (get_or (r_texts request) []) (get_or (r_metadata request) []) s
      else if r_action request = Some ''search'' then
        on_search h (get_or (r_query request) []) (get_or (r_k request) 10) s
      else if r_action request = Some ''remove'' then
        on_remove h (get_or (r_vectorIds request) []) s
      else if r_action request = Some ''stats'' then
        on_stats h s
      else (Inr (ErrorResult (''Unknown action: '' @ format_action (r_action request))), s))"

definition process_request_with ::
    "'m handlers \<Rightarrow> 'm request \<Rightarrow> 'm VectorEngine \<Rightarrow> 'm response \<times> 'm VectorEngine" where
  "process_request_with h request s =
     (let request_id = r_requestId request in
      case dispatch h request s of
        (Inr res, s') \<Rightarrow>
          (\<lparr>response_requestId = request_id, response_result = Some res,
            response_error = None\<rparr>, s')
      | (Inl err, s') \<Rightarrow>
          (\<lparr>response_requestId = request_id, response_result = None,
            response_error = Some err\<rparr>,
           s'\<lparr>logger := logger s' @ [ErrorProcessing err]\<rparr>))"

text \<open>The methods of the class itself: each catches its own exceptions and returns.\<close>

definition engine_handlers :: "'m env \<Rightarrow> 'm handlers" where
  "engine_handlers e =
     \<lparr>on_add = (\<lambda>txts metas s. case add_embeddings e txts metas s of (r, s') \<Rightarrow> (Inr r, s')),
      on_search = (\<lambda>q n s. case search e q n s of (hits, s') \<Rightarrow> (Inr (Hits hits), s')),
      on_remove = (\<lambda>ids s. case remove_embeddings e ids s of (r, s') \<Rightarrow> (Inr r, s')),
      on_stats = (\<lambda>s. (Inr (get_stats s), s))\<rparr>"

definition process_request ::
    "'m env \<Rightarrow> 'm request \<Rightarrow> 'm VectorEngine \<Rightarrow> 'm response \<times> 'm VectorEngine" where
  "process_request e = process_request_with (engine_handlers e)"

subsection \<open>Concrete engines used in the examples\<close>

text \<open>
  An encoder with one-dimensional embeddings (the length of the text) that never raises,
  one that always raises, and the engine a constructor call builds in an empty cache
  directory.
\<close>

definition env0 :: "string env" where
  "env0 = \<lparr>embed = (\<lambda>t. [real (length t)]), encode_raises = (\<lambda>_. None), disk_write = WriteOk\<rparr>"

definition env_failing :: "string env" where
  "env_failing = env0\<lparr>encode_raises := (\<lambda>_. Some ''Encoding failed'')\<rparr>"

definition engine0 :: "string VectorEngine" where
  "engine0 = VectorEngine_init 1 Missing Missing"

text \<open>
  The engine after one document, resp. two documents of equal embedding, were added to
  the fresh engine; an engine constructed over an index file that stores id 1 before
  id 0; and one constructed over an index file holding an id the metadata file lacks.
\<close>

definition engine_one :: "string VectorEngine" where
  "engine_one = snd (add_embeddings env0 [''A''] [''m1''] engine0)"

definition engine_two :: "string VectorEngine" where
  "engine_two = snd (add_embeddings env0 [''a'', ''b''] [''m0'', ''m1''] engine0)"


definition engine_unordered :: "string VectorEngine" where
  "engine_unordered =
     VectorEngine_init 1 (Stored (1, [(1, [0]), (0, [0])]))
       (Stored (Pickled (Some [(0, ''m0''), (1, ''m1'')]) (Some 2)))"

definition engine_orphan :: "string VectorEngine" where
  "engine_orphan =
     VectorEngine_init 1 (Stored (1, [(0, [1]), (1, [2])]))
       (Stored (Pickled (Some [(0, ''m0'')]) (Some 2)))"

text \<open>
  The engine after the call of \<open>add\<close> with three texts and two documents, and an engine
  constructed over a readable index file and an unreadable metadata file.
\<close>

definition engine_mismatched :: "string VectorEngine" where
  "engine_mismatched = snd (add_embeddings env0 [''A'', ''B'', ''C''] [''m1'', ''m2''] engine0)"

definition engine_half_loaded :: "string VectorEngine" where
  "engine_half_loaded = VectorEngine_init 1 (Stored (1, [(0, [1])])) Corrupt"

text \<open>
  An engine constructed for the one-dimensional encoder over the index file of a
  three-dimensional one, and an engine constructed over an index file holding a vector
  whose squared distance to the embedding of \<open>a\<close> float32 cannot hold.
\<close>

definition engine_other_dimension :: "string VectorEngine" where
  "engine_other_dimension =
     VectorEngine_init 1 (Stored (3, [(0, [1, 0, 0])]))
       (Stored (Pickled (Some [(0, ''m0'')]) (Some 1)))"

definition engine_far :: "string VectorEngine" where
  "engine_far =
     VectorEngine_init 1 (Stored (1, [(0, [1]), (1, [100000000000000000000])]))
       (Stored (Pickled (Some [(0, ''m0''), (1, ''m1'')]) (Some 2)))"

text \<open>
  A request with an action the dispatcher does not know, one request for each action it
  knows, and the methods of the engine replaced by four that raise.
\<close>

definition request_unknown :: "string request" where
  "request_unknown =
     \<lparr>r_requestId = Some ''test_req_5'', r_action = Some ''unknown_action'', r_texts = None,
      r_metadata = None, r_query = None, r_k = None, r_vectorIds = None\<rparr>"

definition request_add :: "string request" where
  "request_add =
     \<lparr>r_requestId = Some ''test_req_7'', r_action = Some ''add'', r_texts = Some [''test''],
      r_metadata = Some [''doc''], r_query = None, r_k = None, r_vectorIds = None\<rparr>"

definition request_search :: "string request" where
  "request_search =
     \<lparr>r_requestId = Some ''test_req_2'', r_action = Some ''search'', r_texts = None,
      r_metadata = None, r_query = Some ''test'', r_k = Some 3, r_vectorIds = None\<rparr>"

definition request_remove :: "string request" where
  "request_remove =
     \<lparr>r_requestId = Some ''test_req_3'', r_action = Some ''remove'', r_texts = None,
      r_metadata = None, r_query = None, r_k = None, r_vectorIds = Some [0]\<rparr>"

definition request_stats :: "string request" where
  "request_stats =
     \<lparr>r_requestId = None, r_action = Some ''stats'', r_texts = None,
      r_metadata = None, r_query = None, r_k = None, r_vectorIds = None\<rparr>"

definition handlers_raising :: "string handlers" where
  "handlers_raising =
     \<lparr>on_add = (\<lambda>txts metas s. (Inl ''Test error'', s)),
      on_search = (\<lambda>q n s. (Inl ''search failed'', s)),
      on_remove = (\<lambda>ids s. (Inl ''remove failed'', s)),
      on_stats = (\<lambda>s. (Inl ''stats failed'', s))\<rparr>"

subsection \<open>Predicates of the properties\<close>

text \<open>
  \<open>built_from md h c\<close>: the result \<open>h\<close> is the one the search loop builds from the
  candidate \<open>c\<close> under the metadata dictionary \<open>md\<close>.
\<close>

definition built_from :: "'m pydict \<Rightarrow> 'm hit \<Rightarrow> int \<times> real \<Rightarrow> bool" where
  "built_from md h c =
     (map_of md (fst c) = Some (hit_metadata h) \<and> distance h = snd c
      \<and> relevance h = 1 / (1 + snd c))"

text \<open>Smaller distance first; at equal distance, smaller id first.\<close>

definition by_distance_then_id :: "int \<times> real \<Rightarrow> int \<times> real \<Rightarrow> bool" where
  "by_distance_then_id a b = (snd a < snd b \<or> (snd a = snd b \<and> fst a < fst b))"



text \<open>
  An index in ascending order: its ids ascend in storage order and are all below
  \<open>next_id\<close>.
\<close>

definition ascending :: "'m VectorEngine \<Rightarrow> bool" where
  "ascending s =
     (sorted_wrt (<) (map fst (id_map s))
      \<and> list_all (\<lambda>i. i < next_id s) (map fst (id_map s)))"

section \<open>Properties\<close>

subsection \<open>Dictionaries and the loops\<close>

lemma dict_mem_iff: "dict_mem d key \<longleftrightarrow> key \<in> set (dict_keys d)"
  by (simp add: dict_mem_def dict_keys_def map_of_eq_None_iff)

lemma dict_keys_dict_set:
  "dict_keys (dict_set d key v) =
     (if key \<in> set (dict_keys d) then dict_keys d else dict_keys d @ [key])"
  by (induction d key v rule: dict_set.induct) (auto simp: dict_keys_def)

lemma length_dict_set:
  "length (dict_set d key v) =
     (if key \<in> set (dict_keys d) then length d else Suc (length d))"
  by (induction d key v rule: dict_set.induct) (auto simp: dict_keys_def)

lemma remove_loop_filter:
  "remove_loop vids md = filter (\<lambda>item. fst item \<notin> set vids) md"
proof (induction vids arbitrary: md)
  case Nil
  then show ?case by simp
next
  case (Cons vid rest)
  have "dict_del md vid = md" if "\<not> dict_mem md vid"
    unfolding dict_del_def using that
    by (intro filter_True) (auto simp: dict_mem_iff dict_keys_def)
  then have "(if dict_mem md vid then dict_del md vid else md) = dict_del md vid"
    by simp
  then show ?case
    using Cons.IH by (simp add: dict_del_def conj_commute)
qed

lemma add_loop_fields:
  "id_map (snd (add_loop metas ids s)) = id_map s"
  "id_map_d (snd (add_loop metas ids s)) = id_map_d s"
  "dimension (snd (add_loop metas ids s)) = dimension s"
  "index_file (snd (add_loop metas ids s)) = index_file s"
  "metadata_file (snd (add_loop metas ids s)) = metadata_file s"
  "logger (snd (add_loop metas ids s)) = logger s"
  "next_id (snd (add_loop metas ids s)) = next_id s + int (length metas)"
  by (induction metas ids s rule: add_loop.induct) simp_all

lemma add_loop_ids:
  "fst (add_loop metas ids s) = ids @ map (\<lambda>i. next_id s + int i) [0..<length metas]"
proof (induction metas ids s rule: add_loop.induct)
  case (1 ids s)
  then show ?case by simp
next
  case (2 meta rest ids s)
  have "map (\<lambda>i. next_id s + int i) [0..<Suc (length rest)]
        = next_id s # map (\<lambda>i. next_id s + 1 + int i) [0..<length rest]"
    by (simp add: upt_conv_Cons map_Suc_upt [symmetric] del: upt_Suc)
  then show ?case using 2 by simp
qed

lemma length_add_loop_ids: "length (fst (add_loop metas ids s)) = length ids + length metas"
  by (simp add: add_loop_ids)

lemma length_dict_set_ge: "length d \<le> length (dict_set d key v)"
  by (simp add: length_dict_set)



lemma l2_distance_nonneg: "0 \<le> l2_distance x y"
  unfolding l2_distance_def by (induction x y rule: list_induct2') auto

lemma float32_max_pos: "4 < float32_max"
  by (simp add: float32_max_def)

lemma save_index_fields:
  "id_map (save_index w s) = id_map s"
  "id_map_d (save_index w s) = id_map_d s"
  "metadata (save_index w s) = metadata s"
  "next_id (save_index w s) = next_id s"
  "dimension (save_index w s) = dimension s"
  by (simp_all add: save_index_def split: disk_write.splits)




subsection \<open>What search returns\<close>

lemma collect_built:
  assumes "\<forall>c \<in> set cands. 0 \<le> snd c"
  shows "\<exists>hs. collect md cands acc = Inr (acc @ hs)
              \<and> list_all2 (built_from md) hs (filter (keeps md) cands)"
  using assms
proof (induction md cands acc rule: collect.induct)
  case (1 md results)
  then show ?case by simp
next
  case (2 md idx dst rest results)
  show ?case
  proof (cases "keeps md (idx, dst)")
    case False
    then show ?thesis using 2 by simp
  next
    case True
    then obtain m where m: "map_of md idx = Some m"
      by (auto simp: keeps_def dict_mem_def)
    have nz: "1 + dst \<noteq> 0" using "2.prems" by simp
    let ?h = "\<lparr>hit_metadata = m, distance = dst, relevance = 1 / (1 + dst)\<rparr>"
    from "2.IH"(1) [OF True m nz] "2.prems"
    obtain hs where hs: "collect md rest (results @ [?h]) = Inr ((results @ [?h]) @ hs)"
      "list_all2 (built_from md) hs (filter (keeps md) rest)"
      by auto
    have "built_from md ?h (idx, dst)"
      by (simp add: built_from_def m)
    then show ?thesis
      using True m nz hs by simp
  qed
qed

lemma faiss_search_row_found:
  "filter (keeps md) (faiss_search_row idx q n)
   = filter (keeps md) (take n (sort_key snd (admitted idx q)))"
  by (simp add: faiss_search_row_def Let_def keeps_def)

lemma set_admitted: "set (admitted idx q) \<subseteq> set (scored idx q)"
  by (auto simp: admitted_def)

lemma scored_nonneg: "c \<in> set (scored idx q) \<Longrightarrow> 0 \<le> snd c"
  by (auto simp: scored_def l2_distance_nonneg)

lemma faiss_search_row_nonneg:
  assumes "c \<in> set (faiss_search_row idx q n)"
  shows "0 \<le> snd c"
proof -
  have "c \<in> set (take n (sort_key snd (admitted idx q))) \<or> c = (- 1, float32_max)"
    using assms by (auto simp: faiss_search_row_def Let_def)
  then show ?thesis
  proof
    assume "c \<in> set (take n (sort_key snd (admitted idx q)))"
    then have "c \<in> set (sort_key snd (admitted idx q))"
      by (rule in_set_takeD)
    then have "c \<in> set (scored idx q)"
      using set_admitted [of idx q] by auto
    then show ?thesis by (rule scored_nonneg)
  next
    assume "c = (- 1, float32_max)"
    then show ?thesis using float32_max_pos by simp
  qed
qed

lemma length_faiss_search_row: "length (faiss_search_row idx q n) = n"
  by (simp add: faiss_search_row_def Let_def)

lemma search_ids_cases:
  "search_ids e q k s = [] \<or>
   search_ids e q k s = filter (keeps (metadata s))
      (take (nat (min k (int (length (id_map s)))))
         (sort_key snd (admitted (id_map s) (embed e q))))"
  by (simp add: search_ids_def faiss_search_row_found)

lemma search_built_from:
  "list_all2 (built_from (metadata s)) (fst (search e q k s)) (search_ids e q k s)"
proof (cases "length (id_map s) = 0 \<or> encode_raises e [q] \<noteq> None
         \<or> length (embed e q) \<noteq> id_map_d s
         \<or> min k (int (length (id_map s))) \<le> 0")
  case True
  then show ?thesis
    by (auto simp: search_def search_ids_def encode_def faiss_search_def split: option.splits)
next
  case False
  let ?cands = "faiss_search_row (id_map s) (embed e q) (nat (min k (int (length (id_map s)))))"
  obtain hs where hs: "collect (metadata s) ?cands [] = Inr ([] @ hs)"
      "list_all2 (built_from (metadata s)) hs (filter (keeps (metadata s)) ?cands)"
    using collect_built [of ?cands "metadata s" "[]"] faiss_search_row_nonneg by blast
  have "fst (search e q k s) = hs"
    using False hs(1) by (simp add: search_def encode_def faiss_search_def first_row_def)
  moreover have "search_ids e q k s = filter (keeps (metadata s)) ?cands"
    using False by (simp add: search_ids_def)
  ultimately show ?thesis using hs(2) by simp
qed

lemma length_search: "length (fst (search e q k s)) = length (search_ids e q k s)"
  using search_built_from [of s e q k] by (rule list_all2_lengthD)

lemma map_distance_search: "map distance (fst (search e q k s)) = map snd (search_ids e q k s)"
  using search_built_from [of s e q k]
  by (induction rule: list_all2_induct) (auto simp: built_from_def)

lemma search_state: "snd (search e q k s) = s \<or> (\<exists>err. snd (search e q k s) = s\<lparr>logger := logger s @ [ErrorSearching err]\<rparr>)"
  by (auto simp: search_def split: sum.splits)

subsection \<open>The order of the candidates\<close>

lemma map_fst_scored: "map fst (scored idx q) = map fst idx"
  by (simp add: scored_def case_prod_unfold)

lemma subseq_take: "subseq (take n xs) xs"
  using subseq_rev_drop_many [of "take n xs" "take n xs" "drop n xs"] by simp

lemma subseq_admitted: "subseq (admitted idx q) (scored idx q)"
  by (simp add: admitted_def)

lemma sorted_found: "sorted (map snd (take n (sort_key snd (admitted idx q))))"
proof -
  have "sorted (map snd (sort_key snd (admitted idx q)))"
    by (rule sorted_sort_key)
  then have "sorted (take n (map snd (sort_key snd (admitted idx q))))"
    by (rule sorted_wrt_take)
  then show ?thesis
    by (simp add: take_map)
qed

lemma stable_found:
  "subseq (filter (\<lambda>c. snd c = d) (take n (sort_key snd (admitted idx q)))) (scored idx q)"
proof -
  have "subseq (filter (\<lambda>c. snd c = d) (take n (sort_key snd (admitted idx q))))
               (filter (\<lambda>c. snd c = d) (sort_key snd (admitted idx q)))"
    by (rule subseq_filter) (rule subseq_take)
  also have "filter (\<lambda>c. snd c = d) (sort_key snd (admitted idx q))
             = filter (\<lambda>c. snd c = d) (admitted idx q)"
    by (rule sort_key_stable)
  also have "subseq (filter (\<lambda>c. snd c = d) (admitted idx q)) (admitted idx q)"
    by simp
  also have "subseq (admitted idx q) (scored idx q)"
    by (rule subseq_admitted)
  finally show ?thesis .
qed

lemma insort_by_distance_then_id:
  assumes "sorted_wrt by_distance_then_id ys" and "\<forall>y \<in> set ys. fst x < fst y"
  shows "sorted_wrt by_distance_then_id (insort_key snd x ys)"
  using assms
proof (induction ys)
  case Nil
  then show ?case by simp
next
  case (Cons y ys)
  show ?case
  proof (cases "snd x \<le> snd y")
    case True
    have "by_distance_then_id x z" if "z \<in> set (y # ys)" for z
    proof -
      have "snd y \<le> snd z"
        using that Cons.prems(1) by (auto simp: by_distance_then_id_def)
      then show ?thesis
        using True that Cons.prems(2) by (auto simp: by_distance_then_id_def)
    qed
    then show ?thesis
      using True Cons.prems(1) by simp
  next
    case False
    then have "by_distance_then_id y x"
      by (simp add: by_distance_then_id_def)
    then show ?thesis
      using False Cons by (auto simp: set_insort_key)
  qed
qed

lemma sort_key_by_distance_then_id:
  "sorted_wrt (<) (map fst cs) \<Longrightarrow> sorted_wrt by_distance_then_id (sort_key snd cs)"
proof (induction cs)
  case Nil
  then show ?case by simp
next
  case (Cons c cs)
  then show ?case
    by (auto intro!: insort_by_distance_then_id)
qed

lemma found_by_distance_then_id:
  assumes "sorted_wrt (<) (map fst idx)"
  shows "sorted_wrt by_distance_then_id (take n (sort_key snd (admitted idx q)))"
proof -
  have "sorted_wrt (\<lambda>a b. fst a < fst b) (scored idx q)"
    using assms by (simp add: sorted_wrt_map flip: map_fst_scored [of idx q])
  then have "sorted_wrt (\<lambda>a b. fst a < fst b) (admitted idx q)"
    unfolding admitted_def by (rule sorted_wrt_filter)
  then have "sorted_wrt (<) (map fst (admitted idx q))"
    by (simp add: sorted_wrt_map)
  then have "sorted_wrt by_distance_then_id (sort_key snd (admitted idx q))"
    by (rule sort_key_by_distance_then_id)
  then show ?thesis
    by (rule sorted_wrt_take)
qed

subsection \<open>How many results\<close>

lemma total_vectors_eq: "total_vectors s = length (id_map s)"
  by (simp add: total_vectors_def get_stats_def)

lemma metadata_count_eq: "metadata_count s = length (metadata s)"
  by (simp add: metadata_count_def get_stats_def)

lemma search_ids_kept: "c \<in> set (search_ids e q k s) \<Longrightarrow> keeps (metadata s) c"
  by (auto simp: search_ids_def split: if_splits)

lemma length_search_ids_le:
  "int (length (search_ids e q k s)) \<le> max 0 (min k (int (length (id_map s))))"
proof (cases "search_ids e q k s = []")
  case True
  then show ?thesis by simp
next
  case False
  let ?n = "nat (min k (int (length (id_map s))))"
  have pos: "0 < min k (int (length (id_map s)))"
    using False by (auto simp: search_ids_def split: if_splits)
  have "search_ids e q k s
        = filter (keeps (metadata s)) (take ?n (sort_key snd (admitted (id_map s) (embed e q))))"
    using False search_ids_cases [of e q k s] by simp
  then have "length (search_ids e q k s)
             \<le> length (take ?n (sort_key snd (admitted (id_map s) (embed e q))))"
    using length_filter_le by metis
  also have "\<dots> \<le> ?n"
    by simp
  finally show ?thesis using pos by linarith
qed

lemma length_admitted_le: "length (admitted idx q) \<le> length idx"
  by (simp add: admitted_def scored_def
      order_trans [OF length_filter_le])

lemma search_ids_all:
  assumes "id_map s \<noteq> []" and "encode_raises e [q] = None"
    and "length (embed e q) = id_map_d s" and "int (length (id_map s)) \<le> k"
  shows "search_ids e q k s
         = filter (keeps (metadata s)) (sort_key snd (admitted (id_map s) (embed e q)))"
proof -
  have "min k (int (length (id_map s))) = int (length (id_map s))"
    using assms(4) by simp
  moreover have "length (sort_key snd (admitted (id_map s) (embed e q))) \<le> length (id_map s)"
    by (simp add: length_admitted_le)
  ultimately show ?thesis
    using assms(1,2,3) by (simp add: search_ids_def faiss_search_row_found)
qed

lemma length_kept_admitted_le:
  "length (filter (keeps md) (sort_key snd (admitted idx q)))
   \<le> length (filter (keeps md) (scored idx q))"
proof -
  have "length (filter (keeps md) (sort_key snd (admitted idx q)))
        = length (filter (keeps md) (admitted idx q))"
    by (simp add: filter_sort)
  also have "filter (keeps md) (admitted idx q)
             = filter (\<lambda>c. snd c < float32_max) (filter (keeps md) (scored idx q))"
    by (simp add: admitted_def conj_commute)
  also have "length \<dots> \<le> length (filter (keeps md) (scored idx q))"
    by (rule length_filter_le)
  finally show ?thesis .
qed


lemma keeps_scored:
  "(\<forall>c \<in> set (scored idx q). keeps md c) \<longleftrightarrow> (\<forall>i \<in> set (map fst idx). i \<noteq> - 1 \<and> dict_mem md i)"
  by (auto simp: scored_def keeps_def)

subsection \<open>What add\_embeddings and remove\_embeddings do\<close>

lemma reconstruct_loop_raises:
  "vids \<noteq> [] \<Longrightarrow>
   reconstruct_loop idx vids acc = Inl ''reconstruct not implemented for this type of index''"
  by (cases vids) (simp_all add: faiss_reconstruct_def)

lemma remove_embeddings_eq:
  "remove_embeddings e vids s =
     (if filter (\<lambda>item. fst item \<notin> set vids) (metadata s) \<noteq> [] then
        (ErrorResult ''reconstruct not implemented for this type of index'',
         s\<lparr>metadata := filter (\<lambda>item. fst item \<notin> set vids) (metadata s),
           logger := logger s
             @ [ErrorRemoving ''reconstruct not implemented for this type of index'']\<rparr>)
      else
        (Success,
         save_index (disk_write e) (s\<lparr>metadata := [], id_map := [], id_map_d := dimension s\<rparr>)))"
  by (simp add: remove_embeddings_def Let_def remove_loop_filter dict_keys_def
      reconstruct_loop_raises)

lemma remove_embeddings_error:
  assumes "fst (remove_embeddings e vector_ids s) = ErrorResult err"
  shows "snd (remove_embeddings e vector_ids s) =
    s\<lparr>metadata := filter (\<lambda>item. fst item \<notin> set vector_ids) (metadata s),
      logger := logger s @ [ErrorRemoving err]\<rparr>"
  using assms by (auto simp: remove_embeddings_eq split: if_splits)

lemma add_embeddings_error_after_encode:
  assumes "encode_raises e txts = None"
    and "fst (add_embeddings e txts metas s) = ErrorResult err"
  shows "snd (add_embeddings e txts metas s)
         = (snd (add_loop metas [] s))\<lparr>logger := logger s @ [ErrorAdding err]\<rparr>"
    and "id_map (snd (add_embeddings e txts metas s)) = id_map s"
    and "next_id (snd (add_embeddings e txts metas s)) = next_id s + int (length metas)"
proof -
  define s1 where "s1 = snd (add_loop metas [] s)"
  define ids1 where "ids1 = fst (add_loop metas [] s)"
  have loop: "add_loop metas [] s = (ids1, s1)"
    by (simp add: s1_def ids1_def)
  have log1: "logger s1 = logger s"
    by (simp add: s1_def add_loop_fields)
  have "snd (add_embeddings e txts metas s) = s1\<lparr>logger := logger s @ [ErrorAdding err]\<rparr>"
    using assms loop log1
    by (auto simp: add_embeddings_def encode_def Let_def split: sum.splits)
  then show "snd (add_embeddings e txts metas s)
         = (snd (add_loop metas [] s))\<lparr>logger := logger s @ [ErrorAdding err]\<rparr>"
    by (simp add: s1_def)
  then show "id_map (snd (add_embeddings e txts metas s)) = id_map s"
    and "next_id (snd (add_embeddings e txts metas s)) = next_id s + int (length metas)"
    by (simp_all add: add_loop_fields)
qed

lemma add_embeddings_success:
  assumes "add_embeddings e txts metas s = (VectorIds ids, s')"
  shows "txts \<noteq> []" and "length metas = length txts"
    and "ids = map (\<lambda>i. next_id s + int i) [0..<length metas]"
    and "metadata s' = metadata (snd (add_loop metas [] s))"
    and "id_map s' = id_map s @ zip ids (map (embed e) txts)"
    and "next_id s' = next_id s + int (length metas)"
    and "s' = (if length (metadata s') mod 100 = 0
               then save_index (disk_write e) ((snd (add_loop metas [] s))\<lparr>id_map := id_map s'\<rparr>)
               else (snd (add_loop metas [] s))\<lparr>id_map := id_map s'\<rparr>)"
proof -
  obtain embeddings where enc: "encode e txts = Inr embeddings"
    using assms by (auto simp: add_embeddings_def split: sum.splits)
  then have emb: "embeddings = map (embed e) txts"
    by (auto simp: encode_def split: option.splits)
  define s1 where "s1 = snd (add_loop metas [] s)"
  define ids1 where "ids1 = fst (add_loop metas [] s)"
  have loop: "add_loop metas [] s = (ids1, s1)"
    by (simp add: s1_def ids1_def)
  have arr: "np_int64_array ids1 = Inr ids1"
    using assms enc loop by (auto simp: add_embeddings_def np_int64_array_def split: if_splits)
  obtain idx where ok: "faiss_add_with_ids (id_map_d s1) (id_map s1) embeddings ids1 = Inr idx"
    using assms enc loop arr by (auto simp: add_embeddings_def split: sum.splits)
  then have shape: "embeddings \<noteq> []" "length ids1 = length embeddings"
      "idx = id_map s1 @ zip ids1 embeddings"
    by (auto simp: faiss_add_with_ids_def split: if_splits)
  define s2 where "s2 = s1\<lparr>id_map := idx\<rparr>"
  have res: "ids = ids1"
      "s' = (if length (metadata s2) mod 100 = 0 then save_index (disk_write e) s2 else s2)"
    using assms enc loop arr ok by (auto simp: add_embeddings_def s2_def Let_def)
  show "txts \<noteq> []"
    using shape(1) emb by simp
  show "length metas = length txts"
    using shape(2) emb by (simp add: ids1_def length_add_loop_ids)
  show "ids = map (\<lambda>i. next_id s + int i) [0..<length metas]"
    by (simp add: res(1) ids1_def add_loop_ids)
  have md: "metadata s' = metadata s1"
    using res(2) by (simp add: s2_def save_index_fields)
  then show "metadata s' = metadata (snd (add_loop metas [] s))"
    by (simp add: s1_def)
  have im: "id_map s' = idx"
    using res(2) by (simp add: s2_def save_index_fields)
  then show "id_map s' = id_map s @ zip ids (map (embed e) txts)"
    by (simp add: shape(3) res(1) emb s1_def add_loop_fields)
  show "next_id s' = next_id s + int (length metas)"
    using res(2) by (simp add: s2_def save_index_fields s1_def add_loop_fields)
  have s2: "s2 = (snd (add_loop metas [] s))\<lparr>id_map := id_map s'\<rparr>"
    by (simp add: s2_def s1_def im)
  have "length (metadata s2) = length (metadata s')"
    by (simp add: s2_def md)
  with res(2) have "s' = (if length (metadata s') mod 100 = 0
                          then save_index (disk_write e) s2 else s2)"
    by metis
  then show "s' = (if length (metadata s') mod 100 = 0
               then save_index (disk_write e) ((snd (add_loop metas [] s))\<lparr>id_map := id_map s'\<rparr>)
               else (snd (add_loop metas [] s))\<lparr>id_map := id_map s'\<rparr>)"
    unfolding s2 .
qed

subsection \<open>Indexes in ascending order\<close>

lemma ascending_logger: "ascending (s\<lparr>logger := l\<rparr>) = ascending s"
  by (simp add: ascending_def)

lemma ascending_save_index: "ascending (save_index w s) = ascending s"
  by (simp add: ascending_def save_index_fields)

lemma ascending_init: "ascending (VectorEngine_init d Missing mfile)"
  by (simp add: ascending_def VectorEngine_init_def load_index_def)

lemma ascending_search: "ascending (snd (search e q k s)) = ascending s"
  using search_state [of e q k s] by (auto simp: ascending_logger)

lemma ascending_remove_embeddings:
  "ascending s \<Longrightarrow> ascending (snd (remove_embeddings e vids s))"
  by (simp add: remove_embeddings_eq ascending_save_index) (simp add: ascending_def)

lemma sorted_wrt_fresh_ids: "sorted_wrt (<) (map (\<lambda>i. n + int i) [0..<m])"
  by (simp add: sorted_wrt_map sorted_wrt_iff_nth_less)

lemma ascending_add_embeddings:
  assumes "ascending s"
  shows "ascending (snd (add_embeddings e txts metas s))"
proof (cases "fst (add_embeddings e txts metas s)")
  case (VectorIds ids)
  define s' where "s' = snd (add_embeddings e txts metas s)"
  have run: "add_embeddings e txts metas s = (VectorIds ids, s')"
    using VectorIds by (simp add: s'_def prod_eq_iff)
  note ok = add_embeddings_success [OF run]
  have "map fst (id_map s') = map fst (id_map s) @ ids"
    using ok(2,3) by (simp add: ok(5))
  then have "ascending s'"
    using assms ok(3)
    by (auto simp: ascending_def ok(6) sorted_wrt_append sorted_wrt_fresh_ids list_all_iff)
  then show ?thesis by (simp add: s'_def)
next
  case (ErrorResult err)
  show ?thesis
  proof (cases "encode_raises e txts")
    case None
    from add_embeddings_error_after_encode(1) [OF None ErrorResult]
    show ?thesis
      using assms by (auto simp: ascending_def add_loop_fields list_all_iff)
  next
    case (Some msg)
    then show ?thesis
      using assms by (simp add: add_embeddings_def encode_def ascending_logger)
  qed
next
  case (Hits hs)
  then show ?thesis
    by (auto simp: add_embeddings_def Let_def split: sum.splits prod.splits)
next
  case Success
  then show ?thesis
    by (auto simp: add_embeddings_def Let_def split: sum.splits prod.splits)
next
  case (Stats a b c)
  then show ?thesis
    by (auto simp: add_embeddings_def Let_def split: sum.splits prod.splits)
qed

lemma ascending_sorted: "ascending s \<Longrightarrow> sorted_wrt (<) (map fst (id_map s))"
  by (simp add: ascending_def)

subsection \<open>Saving and loading\<close>

lemma search_depends_on:
  "id_map t = id_map s \<Longrightarrow> id_map_d t = id_map_d s \<Longrightarrow> metadata t = metadata s
   \<Longrightarrow> fst (search e q k t) = fst (search e q k s)"
  by (simp add: search_def split: sum.splits)

lemma init_after_save:
  "VectorEngine_init d (index_file (save_index WriteOk s)) (metadata_file (save_index WriteOk s))
   = \<lparr>dimension = d, id_map = id_map s, id_map_d = id_map_d s, metadata = metadata s,
      next_id = next_id s, index_file = Stored (id_map_d s, id_map s),
      metadata_file = Stored (Pickled (Some (metadata s)) (Some (next_id s))),
      logger = [LoadedIndex (length (id_map s))]\<rparr>"
  by (simp add: VectorEngine_init_def load_index_def save_index_def)

lemma init_falls_back_to_empty:
  assumes "ifile = Missing \<or> ifile = Corrupt \<or> mfile = Missing"
  shows "id_map (VectorEngine_init d ifile mfile) = []"
    and "metadata (VectorEngine_init d ifile mfile) = []"
    and "next_id (VectorEngine_init d ifile mfile) = 0"
  using assms by (auto simp: VectorEngine_init_def load_index_def)

subsection \<open>Dispatching\<close>

lemma dispatch_unknown:
  assumes "r_action request \<notin> {Some ''add'', Some ''search'', Some ''remove'', Some ''stats''}"
  shows "dispatch h request s =
    (Inr (ErrorResult (''Unknown action: '' @ format_action (r_action request))), s)"
  using assms by (simp add: dispatch_def)

lemma process_request_with_raised:
  assumes "fst (dispatch h request s) = Inl err"
  shows "fst (process_request_with h request s) =
            \<lparr>response_requestId = r_requestId request, response_result = None,
             response_error = Some err\<rparr>"
  using assms by (cases "dispatch h request s") (simp add: process_request_with_def)

lemma process_request_no_top_level_error:
  "response_error (fst (process_request e request s)) = None"
  by (auto simp: process_request_def process_request_with_def dispatch_def engine_handlers_def
      split: prod.splits sum.splits)

subsection \<open>Unfolding the examples\<close>

lemmas example_defs =
  add_embeddings_def env0_def env_failing_def engine0_def VectorEngine_init_def load_index_def
  encode_def faiss_add_with_ids_def save_index_def np_int64_array_def int64_range_def
  engine_one_def engine_two_def engine_unordered_def engine_orphan_def engine_mismatched_def
  engine_half_loaded_def engine_other_dimension_def engine_far_def

lemmas search_defs =
  search_def search_ids_def faiss_search_def faiss_search_row_def first_row_def keeps_def
  dict_mem_def l2_distance_def admitted_def scored_def float32_max_def total_vectors_eq
  metadata_count_eq

section \<open>The claims\<close>

subsection \<open>add\_embeddings with sequences of unequal lengths\<close>

text \<open>
  Claim C1. A call of \<open>add\<close> with three texts and two metadata documents is said to be
  rejected as a whole: no id assigned, no record inserted, \<open>next_id\<close> unchanged. On the
  empty engine the call does return the length-mismatch error and leaves the index
  empty, but ids 0 and 1 are assigned: both documents are in the metadata dictionary
  and \<open>next_id\<close> is 2. (By \<open>add_embeddings_error_after_encode\<close> every error that follows
  the encoding leaves the work of the loop behind.)
\<close>

theorem add_embeddings_mismatch_not_rejected_as_a_whole:
  "add_embeddings env0 [''A'', ''B'', ''C''] [''m1'', ''m2''] engine0 =
     (ErrorResult ''not same nb of vectors as ids'',
      engine0\<lparr>metadata := [(0, ''m1''), (1, ''m2'')], next_id := 2,
              logger := [ErrorAdding ''not same nb of vectors as ids'']\<rparr>)"
  by (simp add: example_defs)

subsection \<open>The count invariant\<close>

text \<open>
  Claim C2. After every operation the index and the metadata dictionary are said to hold
  the same ids, with \<open>total_vectors = metadata_count\<close>. The fresh engine satisfies
  this; after the call of \<open>add\<close> with three texts and two documents the index is empty
  and the dictionary holds ids 0 and 1, so \<open>get_stats\<close> reports 0 vectors and 2
  documents.
\<close>

theorem mismatched_add_breaks_count_invariant:
  "total_vectors engine0 = metadata_count engine0
   \<and> total_vectors engine_mismatched = 0
   \<and> metadata_count engine_mismatched = 2
   \<and> set (map fst (id_map engine_mismatched)) = {}
   \<and> set (dict_keys (metadata engine_mismatched)) = {0, 1}"
  by (simp add: example_defs search_defs dict_keys_def)

text \<open>
  A \<open>remove\<close> that leaves a document behind breaks the invariant as well: of two
  documents with their vectors, \<open>remove([0])\<close> deletes the document of id 0, fails to
  reconstruct the vector of id 1 and keeps both vectors.
\<close>

lemma remove_with_survivors_breaks_count_invariant:
  "total_vectors engine_two = 2 \<and> metadata_count engine_two = 2
   \<and> fst (remove_embeddings env0 [0] engine_two)
       = ErrorResult ''reconstruct not implemented for this type of index''
   \<and> total_vectors (snd (remove_embeddings env0 [0] engine_two)) = 2
   \<and> metadata_count (snd (remove_embeddings env0 [0] engine_two)) = 1"
  by (simp add: remove_embeddings_eq search_defs) (simp add: example_defs)

subsection \<open>remove\_embeddings when a reconstruction fails\<close>

text \<open>
  Claim C3. A \<open>remove\<close> in which a reconstruction fails is said to leave both
  mappings as they were. On the engine whose dictionary holds ids 0 and 1 and whose
  index holds neither, \<open>remove([1])\<close> deletes id 1 from the dictionary, fails to
  reconstruct id 0, and returns the error with id 1 gone. (By
  \<open>remove_embeddings_error\<close> every call that returns an error has deleted the named ids
  from the dictionary, logged the error and changed nothing else.)
\<close>

theorem remove_failure_keeps_metadata_deletions:
  "metadata engine_mismatched = [(0, ''m1''), (1, ''m2'')]
   \<and> remove_embeddings env0 [1] engine_mismatched =
       (ErrorResult ''reconstruct not implemented for this type of index'',
        engine_mismatched\<lparr>metadata := [(0, ''m1'')],
          logger := [ErrorAdding ''not same nb of vectors as ids'',
                     ErrorRemoving ''reconstruct not implemented for this type of index'']\<rparr>)"
  by (simp add: example_defs remove_embeddings_def dict_mem_def dict_del_def
      dict_keys_def faiss_reconstruct_def)

subsection \<open>Construction over unreadable files\<close>

text \<open>
  Claim C4. A failed load is said to leave the empty store. Over a readable index file
  with one vector and an unreadable metadata file the load fails, the constructor
  returns, and the engine holds the vector of the file: \<open>total_vectors\<close> is 1, with
  no metadata. (By \<open>init_falls_back_to_empty\<close> a missing file or an unreadable index
  file does leave the empty store.)
\<close>

theorem load_failure_keeps_loaded_index:
  "logger engine_half_loaded = [FailedToLoad]
   \<and> total_vectors engine_half_loaded = 1
   \<and> metadata_count engine_half_loaded = 0
   \<and> id_map engine_half_loaded = [(0, [1])]"
  by (simp add: example_defs search_defs)

subsection \<open>The automatic save of add\_embeddings\<close>



subsection \<open>The number of results of search\<close>




subsection \<open>The order of the results of search\<close>

text \<open>
  Claim C7, as stated: results of equal distance appear in ascending order of id. The
  engine constructed over an index file that stores id 1 before id 0, both at distance 0
  from the query, returns the result of id 1 first.
\<close>

theorem search_ties_follow_storage_order_not_ids:
  "search_ids env0 [] 2 engine_unordered = [(1, 0), (0, 0)]
   \<and> fst (search env0 [] 2 engine_unordered) =
       [\<lparr>hit_metadata = ''m1'', distance = 0, relevance = 1\<rparr>,
        \<lparr>hit_metadata = ''m0'', distance = 0, relevance = 1\<rparr>]
   \<and> \<not> sorted_wrt by_distance_then_id (search_ids env0 [] 2 engine_unordered)"
  by (simp add: example_defs search_defs by_distance_then_id_def)

text \<open>
  Claim C7, amended: the results are in non-decreasing order of distance; the results of
  one distance appear in the order in which the index stores their entries; and when the
  index stores its ids in ascending order (as every index built by \<open>add\<close> and \<open>remove\<close>
  from an empty engine does), results of equal distance appear in ascending order of id.
  Here \<open>search_ids\<close> lists the (id, distance) candidates the results are built from.
\<close>

theorem search_order:
  "sorted (map distance (fst (search e q k s)))
   \<and> list_all2 (built_from (metadata s)) (fst (search e q k s)) (search_ids e q k s)
   \<and> subseq (filter (\<lambda>c. snd c = d) (search_ids e q k s)) (scored (id_map s) (embed e q))
   \<and> (sorted_wrt (<) (map fst (id_map s))
        \<longrightarrow> sorted_wrt by_distance_then_id (search_ids e q k s))"
proof (intro conjI)
  let ?found = "take (nat (min k (int (length (id_map s)))))
                  (sort_key snd (admitted (id_map s) (embed e q)))"
  have "sorted_wrt (\<lambda>a b. snd a \<le> snd b) ?found"
    using sorted_found [of _ "id_map s" "embed e q"] by (simp add: sorted_map)
  then have "sorted_wrt (\<lambda>a b. snd a \<le> snd b) (filter (keeps (metadata s)) ?found)"
    by (rule sorted_wrt_filter)
  then have "sorted (map snd (search_ids e q k s))"
    using search_ids_cases [of e q k s] by (auto simp: sorted_map)
  then show "sorted (map distance (fst (search e q k s)))"
    by (simp add: map_distance_search)
  show "list_all2 (built_from (metadata s)) (fst (search e q k s)) (search_ids e q k s)"
    by (rule search_built_from)
  have "subseq (filter (\<lambda>c. snd c = d) (filter (keeps (metadata s)) ?found))
               (filter (\<lambda>c. snd c = d) ?found)"
    by (rule subseq_filter) simp
  then have "subseq (filter (\<lambda>c. snd c = d) (filter (keeps (metadata s)) ?found))
               (scored (id_map s) (embed e q))"
    using stable_found subseq_order.order_trans by blast
  then show "subseq (filter (\<lambda>c. snd c = d) (search_ids e q k s)) (scored (id_map s) (embed e q))"
    using search_ids_cases [of e q k s] by auto
  show "sorted_wrt (<) (map fst (id_map s)) \<longrightarrow> sorted_wrt by_distance_then_id (search_ids e q k s)"
  proof
    assume "sorted_wrt (<) (map fst (id_map s))"
    then have "sorted_wrt by_distance_then_id (filter (keeps (metadata s)) ?found)"
      by (intro sorted_wrt_filter found_by_distance_then_id)
    then show "sorted_wrt by_distance_then_id (search_ids e q k s)"
      using search_ids_cases [of e q k s] by auto
  qed
qed

theorem search_order_witness:
  "sorted_wrt (<) (map fst (id_map engine_two))
   \<and> search_ids env0 ''a'' 2 engine_two = [(0, 0), (1, 0)]
   \<and> sorted_wrt by_distance_then_id (search_ids env0 ''a'' 2 engine_two)"
proof -
  have asc: "sorted_wrt (<) (map fst (id_map engine_two))"
    by (simp add: example_defs)
  have ids: "search_ids env0 ''a'' 2 engine_two = [(0, 0), (1, 0)]"
    by (simp add: example_defs search_defs)
  from search_order [of env0 "''a''" 2 engine_two] asc
  have "sorted_wrt by_distance_then_id (search_ids env0 ''a'' 2 engine_two)"
    by blast
  with asc ids show ?thesis by blast
qed

subsection \<open>Candidates without metadata\<close>

text \<open>
  Claim C10, as stated: when the index holds an id that the metadata dictionary lacks,
  search returns fewer than \<open>min(k, total_vectors)\<close> results. The engine below holds
  ids 0 and 1 in the index and only id 0 in the dictionary; a search with \<open>k = 1\<close> whose
  nearest entry is id 0 returns one result, which is \<open>min(1, 2)\<close>.
\<close>

theorem search_with_orphan_id_can_return_k_results:
  "1 \<in> set (map fst (id_map engine_orphan)) \<and> \<not> dict_mem (metadata engine_orphan) 1
   \<and> total_vectors engine_orphan = 2
   \<and> length (fst (search env0 ''a'' 1 engine_orphan)) = 1"
  by (simp add: example_defs search_defs)

text \<open>
  Claim C10, amended: every result of a search is built from a candidate of the index
  whose id is not \<open>-1\<close> and is a key of the metadata dictionary, the other candidates
  being dropped without an error; search returns at most \<open>min(k, total_vectors)\<close>
  results; and it returns fewer than \<open>total_vectors\<close> results when the store is not
  empty, \<open>k\<close> is at least \<open>total_vectors\<close>, the encoder returns the query vector and the
  index holds an id that the dictionary lacks. For a smaller \<open>k\<close> such an id costs a
  result only when it is among the \<open>k\<close> nearest.
\<close>

theorem search_drops_unknown_ids:
  "list_all2 (built_from (metadata s)) (fst (search e q k s)) (search_ids e q k s)
   \<and> (\<forall>c \<in> set (search_ids e q k s). fst c \<noteq> - 1 \<and> dict_mem (metadata s) (fst c))
   \<and> int (length (fst (search e q k s))) \<le> max 0 (min k (int (total_vectors s)))
   \<and> (0 < total_vectors s \<and> int (total_vectors s) \<le> k \<and> encode_raises e [q] = None
        \<and> (\<exists>i \<in> set (map fst (id_map s)). \<not> dict_mem (metadata s) i)
      \<longrightarrow> length (fst (search e q k s)) < total_vectors s)"
proof (intro conjI impI)
  show "list_all2 (built_from (metadata s)) (fst (search e q k s)) (search_ids e q k s)"
    by (rule search_built_from)
next
  show "\<forall>c \<in> set (search_ids e q k s). fst c \<noteq> - 1 \<and> dict_mem (metadata s) (fst c)"
    using search_ids_kept [of _ e q k s] by (auto simp: keeps_def)
next
  show "int (length (fst (search e q k s))) \<le> max 0 (min k (int (total_vectors s)))"
    using length_search_ids_le [of e q k s] by (simp add: length_search total_vectors_eq)
next
  assume a: "0 < total_vectors s \<and> int (total_vectors s) \<le> k \<and> encode_raises e [q] = None
        \<and> (\<exists>i \<in> set (map fst (id_map s)). \<not> dict_mem (metadata s) i)"
  show "length (fst (search e q k s)) < total_vectors s"
  proof (cases "length (embed e q) = id_map_d s")
    case False
    then have "search_ids e q k s = []"
      by (simp add: search_ids_def)
    then show ?thesis
      using a by (simp add: length_search)
  next
    case True
    let ?all = "scored (id_map s) (embed e q)"
    have ids: "search_ids e q k s
               = filter (keeps (metadata s)) (sort_key snd (admitted (id_map s) (embed e q)))"
      using a True by (intro search_ids_all) (auto simp: total_vectors_eq)
    obtain c where "c \<in> set ?all" "\<not> keeps (metadata s) c"
      using a keeps_scored [of "id_map s" "embed e q" "metadata s"] by blast
    then have "length (filter (keeps (metadata s)) ?all) < length ?all"
      by (rule length_filter_less)
    then have "length (search_ids e q k s) < length ?all"
      using length_kept_admitted_le [of "metadata s" "id_map s" "embed e q"]
      by (simp add: ids)
    then show ?thesis
      by (simp add: length_search total_vectors_eq scored_def)
  qed
qed

theorem search_drops_unknown_ids_witness:
  "search_ids env0 ''a'' 2 engine_orphan = [(0, 0)]
   \<and> list_all (\<lambda>c. fst c \<noteq> - 1 \<and> dict_mem (metadata engine_orphan) (fst c))
         (search_ids env0 ''a'' 2 engine_orphan)
   \<and> 0 < total_vectors engine_orphan \<and> int (total_vectors engine_orphan) \<le> 2
   \<and> encode_raises env0 [''a''] = None
   \<and> (\<exists>i \<in> set (map fst (id_map engine_orphan)). \<not> dict_mem (metadata engine_orphan) i)
   \<and> length (fst (search env0 ''a'' 2 engine_orphan)) < total_vectors engine_orphan"
proof -
  have ids: "search_ids env0 ''a'' 2 engine_orphan = [(0, 0)]"
    by (simp add: example_defs search_defs)
  have hyp: "0 < total_vectors engine_orphan \<and> int (total_vectors engine_orphan) \<le> 2
     \<and> encode_raises env0 [''a''] = None
     \<and> (\<exists>i \<in> set (map fst (id_map engine_orphan)). \<not> dict_mem (metadata engine_orphan) i)"
    by (simp add: example_defs search_defs)
  from search_drops_unknown_ids [of engine_orphan env0 "''a''" 2] hyp
  have "list_all (\<lambda>c. fst c \<noteq> - 1 \<and> dict_mem (metadata engine_orphan) (fst c))
          (search_ids env0 ''a'' 2 engine_orphan)
        \<and> length (fst (search env0 ''a'' 2 engine_orphan)) < total_vectors engine_orphan"
    unfolding list_all_iff by blast
  with ids hyp show ?thesis by blast
qed

subsection \<open>Save, then construct again\<close>

text \<open>
  Claim C8. After a save that writes both files, the engine constructed over these files
  has the same \<open>total_vectors\<close>, \<open>metadata_count\<close> and \<open>next_id\<close> as the saved one
  and answers every search with the same results.
\<close>

theorem save_then_construct_roundtrip:
  "total_vectors (VectorEngine_init (dimension s) (index_file (save_index WriteOk s))
       (metadata_file (save_index WriteOk s))) = total_vectors s
   \<and> metadata_count (VectorEngine_init (dimension s) (index_file (save_index WriteOk s))
       (metadata_file (save_index WriteOk s))) = metadata_count s
   \<and> next_id (VectorEngine_init (dimension s) (index_file (save_index WriteOk s))
       (metadata_file (save_index WriteOk s))) = next_id s
   \<and> fst (search e q k (VectorEngine_init (dimension s) (index_file (save_index WriteOk s))
       (metadata_file (save_index WriteOk s)))) = fst (search e q k s)"
proof -
  let ?fresh = "VectorEngine_init (dimension s) (index_file (save_index WriteOk s))
       (metadata_file (save_index WriteOk s))"
  have same: "id_map ?fresh = id_map s" "id_map_d ?fresh = id_map_d s"
      "metadata ?fresh = metadata s" "next_id ?fresh = next_id s"
    by (simp_all add: init_after_save)
  have "fst (search e q k ?fresh) = fst (search e q k s)"
    using same(1,2,3) by (rule search_depends_on)
  then show ?thesis
    using same by (simp add: total_vectors_eq metadata_count_eq)
qed

subsection \<open>The two error shapes of process\_request\<close>

text \<open>
  Claim C9. For an action other than \<open>add\<close>, \<open>search\<close>, \<open>remove\<close> and \<open>stats\<close> the
  response carries, under \<open>result\<close>, the error \<open>Unknown action: <name>\<close> and no
  top-level error. For each of these four actions, when the method that
  \<open>process_request\<close> calls for it raises, the response carries the request id and the
  message as a top-level error, and no result. (The methods of the class catch their
  own exceptions, so with them the top-level error does not occur:
  \<open>process_request_no_top_level_error\<close>.)
\<close>

theorem process_request_error_shapes:
  "(r_action request \<notin> {Some ''add'', Some ''search'', Some ''remove'', Some ''stats''} \<longrightarrow>
      fst (process_request_with h request s) =
        \<lparr>response_requestId = r_requestId request,
         response_result = Some (ErrorResult (''Unknown action: '' @ format_action (r_action request))),
         response_error = None\<rparr>)
   \<and> (r_action request = Some ''add''
        \<and> fst (on_add h (get_or (r_texts request) []) (get_or (r_metadata request) []) s) = Inl err
      \<longrightarrow> fst (process_request_with h request s) =
            \<lparr>response_requestId = r_requestId request, response_result = None,
             response_error = Some err\<rparr>)
   \<and> (r_action request = Some ''search''
        \<and> fst (on_search h (get_or (r_query request) []) (get_or (r_k request) 10) s) = Inl err
      \<longrightarrow> fst (process_request_with h request s) =
            \<lparr>response_requestId = r_requestId request, response_result = None,
             response_error = Some err\<rparr>)
   \<and> (r_action request = Some ''remove''
        \<and> fst (on_remove h (get_or (r_vectorIds request) []) s) = Inl err
      \<longrightarrow> fst (process_request_with h request s) =
            \<lparr>response_requestId = r_requestId request, response_result = None,
             response_error = Some err\<rparr>)
   \<and> (r_action request = Some ''stats'' \<and> fst (on_stats h s) = Inl err
      \<longrightarrow> fst (process_request_with h request s) =
            \<lparr>response_requestId = r_requestId request, response_result = None,
             response_error = Some err\<rparr>)"
proof (intro conjI impI)
  assume "r_action request \<notin> {Some ''add'', Some ''search'', Some ''remove'', Some ''stats''}"
  then show "fst (process_request_with h request s) =
        \<lparr>response_requestId = r_requestId request,
         response_result = Some (ErrorResult (''Unknown action: '' @ format_action (r_action request))),
         response_error = None\<rparr>"
    by (simp add: process_request_with_def dispatch_unknown)
next
  assume "r_action request = Some ''add''
        \<and> fst (on_add h (get_or (r_texts request) []) (get_or (r_metadata request) []) s) = Inl err"
  then have "fst (dispatch h request s) = Inl err"
    by (simp add: dispatch_def)
  then show "fst (process_request_with h request s) =
            \<lparr>response_requestId = r_requestId request, response_result = None,
             response_error = Some err\<rparr>"
    by (rule process_request_with_raised)
next
  assume "r_action request = Some ''search''
        \<and> fst (on_search h (get_or (r_query request) []) (get_or (r_k request) 10) s) = Inl err"
  then have "fst (dispatch h request s) = Inl err"
    by (simp add: dispatch_def)
  then show "fst (process_request_with h request s) =
            \<lparr>response_requestId = r_requestId request, response_result = None,
             response_error = Some err\<rparr>"
    by (rule process_request_with_raised)
next
  assume "r_action request = Some ''remove''
        \<and> fst (on_remove h (get_or (r_vectorIds request) []) s) = Inl err"
  then have "fst (dispatch h request s) = Inl err"
    by (simp add: dispatch_def)
  then show "fst (process_request_with h request s) =
            \<lparr>response_requestId = r_requestId request, response_result = None,
             response_error = Some err\<rparr>"
    by (rule process_request_with_raised)
next
  assume "r_action request = Some ''stats'' \<and> fst (on_stats h s) = Inl err"
  then have "fst (dispatch h request s) = Inl err"
    by (simp add: dispatch_def)
  then show "fst (process_request_with h request s) =
            \<lparr>response_requestId = r_requestId request, response_result = None,
             response_error = Some err\<rparr>"
    by (rule process_request_with_raised)
qed

theorem process_request_error_shapes_witness:
  "r_action request_unknown \<notin> {Some ''add'', Some ''search'', Some ''remove'', Some ''stats''}
   \<and> fst (process_request env0 request_unknown engine0) =
        \<lparr>response_requestId = Some ''test_req_5'',
         response_result = Some (ErrorResult ''Unknown action: unknown_action''),
         response_error = None\<rparr>
   \<and> fst (on_add handlers_raising [''test''] [''doc''] engine0) = Inl ''Test error''
   \<and> fst (process_request_with handlers_raising request_add engine0) =
        \<lparr>response_requestId = Some ''test_req_7'', response_result = None,
         response_error = Some ''Test error''\<rparr>
   \<and> fst (on_search handlers_raising ''test'' 3 engine0) = Inl ''search failed''
   \<and> fst (process_request_with handlers_raising request_search engine0) =
        \<lparr>response_requestId = Some ''test_req_2'', response_result = None,
         response_error = Some ''search failed''\<rparr>
   \<and> fst (on_remove handlers_raising [0] engine0) = Inl ''remove failed''
   \<and> fst (process_request_with handlers_raising request_remove engine0) =
        \<lparr>response_requestId = Some ''test_req_3'', response_result = None,
         response_error = Some ''remove failed''\<rparr>
   \<and> fst (on_stats handlers_raising engine0) = Inl ''stats failed''
   \<and> fst (process_request_with handlers_raising request_stats engine0) =
        \<lparr>response_requestId = None, response_result = None,
         response_error = Some ''stats failed''\<rparr>"
proof -
  have unknown: "r_action request_unknown \<notin> {Some ''add'', Some ''search'', Some ''remove'', Some ''stats''}"
    by (simp add: request_unknown_def)
  have raised: "fst (on_add handlers_raising [''test''] [''doc''] engine0) = Inl ''Test error''"
      "fst (on_search handlers_raising ''test'' 3 engine0) = Inl ''search failed''"
      "fst (on_remove handlers_raising [0] engine0) = Inl ''remove failed''"
      "fst (on_stats handlers_raising engine0) = Inl ''stats failed''"
    by (simp_all add: handlers_raising_def)
  from process_request_error_shapes [of request_unknown "engine_handlers env0" engine0] unknown
  have r0: "fst (process_request env0 request_unknown engine0) =
        \<lparr>response_requestId = Some ''test_req_5'',
         response_result = Some (ErrorResult ''Unknown action: unknown_action''),
         response_error = None\<rparr>"
    by (simp add: process_request_def request_unknown_def format_action_def)
  from process_request_error_shapes [of request_add handlers_raising engine0 "''Test error''"] raised(1)
  have r1: "fst (process_request_with handlers_raising request_add engine0) =
        \<lparr>response_requestId = Some ''test_req_7'', response_result = None,
         response_error = Some ''Test error''\<rparr>"
    by (simp add: request_add_def get_or_def)
  from process_request_error_shapes [of request_search handlers_raising engine0 "''search failed''"] raised(2)
  have r2: "fst (process_request_with handlers_raising request_search engine0) =
        \<lparr>response_requestId = Some ''test_req_2'', response_result = None,
         response_error = Some ''search failed''\<rparr>"
    by (simp add: request_search_def get_or_def)
  from process_request_error_shapes [of request_remove handlers_raising engine0 "''remove failed''"] raised(3)
  have r3: "fst (process_request_with handlers_raising request_remove engine0) =
        \<lparr>response_requestId = Some ''test_req_3'', response_result = None,
         response_error = Some ''remove failed''\<rparr>"
    by (simp add: request_remove_def get_or_def)
  from process_request_error_shapes [of request_stats handlers_raising engine0 "''stats failed''"] raised(4)
  have r4: "fst (process_request_with handlers_raising request_stats engine0) =
        \<lparr>response_requestId = None, response_result = None,
         response_error = Some ''stats failed''\<rparr>"
    by (simp add: request_stats_def)
  from unknown raised r0 r1 r2 r3 r4 show ?thesis
    by blast
qed

end
